theory Spec2Isabelle
  imports Complex_Main "HOL-Library.Log_Nat" "HOL-Library.Multiset"
begin

section \<open>The FoodDetails screen of GoRestaurant Mobile\<close>

text \<open>
  The development embeds \<^verbatim>\<open>src/pages/FoodDetails/index.tsx\<close>: the four pieces of
  component state (\<^verbatim>\<open>food\<close>, \<^verbatim>\<open>extras\<close>, \<^verbatim>\<open>isFavorite\<close>, \<^verbatim>\<open>foodQuantity\<close>), the
  handlers that change them, the loader and the derived \<^verbatim>\<open>cartTotal\<close>.
\<close>

subsection \<open>JavaScript numbers\<close>

text \<open>
  Every TypeScript \<^verbatim>\<open>number\<close> of the component is an IEEE 754 binary64 value. A finite
  one is modelled by the rational it denotes, next to the two infinities and NaN. The two
  signed zeros are one value here: the component never divides and compares with
  \<^verbatim>\<open>===\<close> and \<^verbatim>\<open>>\<close> only, which do not tell them apart.
\<close>

datatype number = Fin rat | PInf | NInf | NaN

text \<open>\<open>pow2 k\<close> is \<open>2\<close> to the integer power \<open>k\<close>.\<close>

definition pow2 :: "int \<Rightarrow> rat" where
  "pow2 k = (if 0 \<le> k then 2 ^ nat k else 1 / 2 ^ nat (- k))"

text \<open>
  \<open>ilog2 r\<close> is the binary exponent of a positive rational: the integer \<open>e\<close> with
  \<open>2\<^sup>e \<le> r < 2\<^sup>e\<^sup>+\<^sup>1\<close>.
\<close>

definition ilog2 :: "rat \<Rightarrow> int" where
  "ilog2 r = (if 1 \<le> r then bitlen \<lfloor>r\<rfloor> - 1 else - bitlen (\<lceil>1 / r\<rceil> - 1))"

text \<open>Rounding to the nearest integer, a tie going to the even neighbour.\<close>

definition round_half_even :: "rat \<Rightarrow> int" where
  "round_half_even x =
     (let n = \<lfloor>x\<rfloor>; d = x - of_int n
      in if d < 1 / 2 then n else if 1 / 2 < d then n + 1 else if even n then n else n + 1)"

text \<open>
  \<open>round64 r\<close> is the binary64 value of the real number \<open>r\<close> under the default rounding
  (to nearest, ties to even). The value has 53 significant bits: with \<open>e\<close> the binary
  exponent of \<open>r\<close>, not below \<open>-1022\<close> (below it the spacing stays \<open>2\<^sup>-\<^sup>1\<^sup>0\<^sup>7\<^sup>4\<close>, the
  subnormal numbers), it is a whole multiple \<open>m\<close> of \<open>2\<^sup>e\<^sup>-\<^sup>5\<^sup>2\<close>. The result is an infinity
  once the rounded magnitude reaches \<open>2\<^sup>1\<^sup>0\<^sup>2\<^sup>4\<close>, which is when \<open>e\<close> is above \<open>1023\<close> or the
  rounding at \<open>e = 1023\<close> carries to \<open>m = 2\<^sup>5\<^sup>3\<close>.
\<close>

definition round64 :: "rat \<Rightarrow> number" where
  "round64 r =
     (if r = 0 then Fin 0
      else let e = max (ilog2 \<bar>r\<bar>) (- 1022);
               m = round_half_even (\<bar>r\<bar> / pow2 (e - 52))
           in if 1024 \<le> e \<or> (e = 1023 \<and> m = 2 ^ 53) then (if 0 < r then PInf else NInf)
              else Fin ((if 0 < r then 1 else - 1) * of_int m * pow2 (e - 52)))"

text \<open>The operators the component uses: \<^verbatim>\<open>+\<close>, \<^verbatim>\<open>-\<close>, \<^verbatim>\<open>*\<close>, \<^verbatim>\<open>>\<close> and \<^verbatim>\<open>===\<close>.\<close>

fun js_add :: "number \<Rightarrow> number \<Rightarrow> number" where
  "js_add NaN y = NaN"
| "js_add x NaN = NaN"
| "js_add (Fin a) (Fin b) = round64 (a + b)"
| "js_add PInf NInf = NaN"
| "js_add NInf PInf = NaN"
| "js_add PInf y = PInf"
| "js_add NInf y = NInf"
| "js_add (Fin a) y = y"

fun js_neg :: "number \<Rightarrow> number" where
  "js_neg (Fin a) = Fin (- a)"
| "js_neg PInf = NInf"
| "js_neg NInf = PInf"
| "js_neg NaN = NaN"

definition js_sub :: "number \<Rightarrow> number \<Rightarrow> number" where
  "js_sub x y = js_add x (js_neg y)"

fun js_mul :: "number \<Rightarrow> number \<Rightarrow> number" where
  "js_mul NaN y = NaN"
| "js_mul x NaN = NaN"
| "js_mul (Fin a) (Fin b) = round64 (a * b)"
| "js_mul (Fin a) y = (if a = 0 then NaN else if (0 < a) = (y = PInf) then PInf else NInf)"
| "js_mul x (Fin b) = (if b = 0 then NaN else if (0 < b) = (x = PInf) then PInf else NInf)"
| "js_mul x y = (if x = y then PInf else NInf)"

fun js_gt :: "number \<Rightarrow> number \<Rightarrow> bool" where
  "js_gt NaN y = False"
| "js_gt x NaN = False"
| "js_gt (Fin a) (Fin b) = (b < a)"
| "js_gt PInf y = (y \<noteq> PInf)"
| "js_gt x NInf = (x \<noteq> NInf)"
| "js_gt x y = False"

definition strict_eq :: "number \<Rightarrow> number \<Rightarrow> bool" where
  "strict_eq x y = (x \<noteq> NaN \<and> x = y)"

text \<open>
  The text of a template literal \<^verbatim>\<open>`${x}`\<close> whose \<open>x\<close> is a number or \<^verbatim>\<open>undefined\<close>:
  the decimal rendering of the number (kept as the number it renders) or the word
  \<^verbatim>\<open>undefined\<close>. \<^verbatim>\<open>Number.parseFloat\<close> reads a rendered number back as that number
  (the rendering is the shortest decimal that rounds to it, \<^verbatim>\<open>Infinity\<close> reads as
  infinity and \<^verbatim>\<open>NaN\<close> as NaN) and gives NaN on the word \<^verbatim>\<open>undefined\<close>.
\<close>

datatype template_string = NumberText number | UndefinedText

fun template :: "number option \<Rightarrow> template_string" where
  "template (Some x) = NumberText x"
| "template None = UndefinedText"

fun parseFloat :: "template_string \<Rightarrow> number" where
  "parseFloat (NumberText x) = x"
| "parseFloat UndefinedText = NaN"

subsection \<open>Data\<close>

text \<open>
  \<^verbatim>\<open>interface Extra\<close> and \<^verbatim>\<open>interface Food\<close>. The fields are prefixed, \<open>id\<close> and
  \<open>value\<close> being taken in Isabelle. A \<^verbatim>\<open>Food\<close> object starts as \<^verbatim>\<open>{}\<close> and loses
  fields to \<^verbatim>\<open>delete\<close>, so each of its fields may be absent.
\<close>

record Extra =
  extra_id :: int
  extra_name :: string
  extra_value :: number
  extra_quantity :: number

record Food =
  food_id :: "int option"
  food_name :: "string option"
  food_description :: "string option"
  food_price :: "number option"
  food_image_url :: "string option"
  formattedPrice :: "string option"
  food_extras :: "Extra list option"

text \<open>The four \<^verbatim>\<open>useState\<close> cells of the component.\<close>

record state =
  food :: Food
  extras :: "Extra list"
  isFavorite :: bool
  foodQuantity :: number

text \<open>What a handler sends out: a request to the API, or the navigation back.\<close>

datatype effect =
    PostFavorite Food
  | DeleteFavorite "int option"
  | PostOrder Food
  | GoBack

definition empty_food :: Food where
  "empty_food =
     \<lparr>food_id = None, food_name = None, food_description = None, food_price = None,
      food_image_url = None, formattedPrice = None, food_extras = None\<rparr>"

definition initial_state :: state where
  "initial_state = \<lparr>food = empty_food, extras = [], isFavorite = False, foodQuantity = Fin 1\<rparr>"

subsection \<open>Loading\<close>

text \<open>\<^verbatim>\<open>Array.prototype.findIndex\<close>: the first index whose element passes, or \<open>-1\<close>.\<close>

fun findIndex_from :: "('a \<Rightarrow> bool) \<Rightarrow> 'a list \<Rightarrow> int \<Rightarrow> int" where
  "findIndex_from P [] k = - 1"
| "findIndex_from P (x # xs) k = (if P x then k else findIndex_from P xs (k + 1))"

definition findIndex :: "('a \<Rightarrow> bool) \<Rightarrow> 'a list \<Rightarrow> int" where
  "findIndex P xs = findIndex_from P xs 0"

text \<open>
  \<^verbatim>\<open>loadFood\<close> runs in two parts, one after each \<^verbatim>\<open>await\<close>. The formatter
  \<^verbatim>\<open>formatValue\<close> lives in another module and is a parameter. A response is \<open>None\<close>
  when the request fails; the rejected promise then ends \<^verbatim>\<open>loadFood\<close>. So does the
  \<^verbatim>\<open>TypeError\<close> of \<^verbatim>\<open>formattedFood.extras.map\<close> on an item without \<^verbatim>\<open>extras\<close>, after
  \<^verbatim>\<open>setFood\<close> has run. The first part returns whether the second one is reached.
\<close>

definition loadFood_item ::
  "(number option \<Rightarrow> string) \<Rightarrow> Food option \<Rightarrow> state \<Rightarrow> state \<times> bool" where
  "loadFood_item formatValue response s =
     (case response of
        None \<Rightarrow> (s, False)
      | Some data \<Rightarrow>
          let formattedFood = data\<lparr>formattedPrice := Some (formatValue (food_price data))\<rparr>;
              s1 = s\<lparr>food := formattedFood\<rparr>
          in (case food_extras formattedFood of
                None \<Rightarrow> (s1, False)
              | Some xs \<Rightarrow>
                  (s1\<lparr>extras := map (\<lambda>extra. extra\<lparr>extra_quantity := Fin 0\<rparr>) xs\<rparr>, True)))"

definition loadFood_favorites :: "int \<Rightarrow> Food list option \<Rightarrow> state \<Rightarrow> state" where
  "loadFood_favorites routeParams_id checkFavorite s =
     (case checkFavorite of
        None \<Rightarrow> s
      | Some favorites \<Rightarrow>
          let favFound = findIndex (\<lambda>favId. food_id favId = Some routeParams_id) favorites
          in if favFound \<noteq> - 1 then s\<lparr>isFavorite := True\<rparr> else s)"

definition loadFood ::
  "(number option \<Rightarrow> string) \<Rightarrow> int \<Rightarrow> Food option \<Rightarrow> Food list option \<Rightarrow> state \<Rightarrow> state" where
  "loadFood formatValue routeParams_id response checkFavorite s =
     (case loadFood_item formatValue response s of
        (s', False) \<Rightarrow> s'
      | (s', True) \<Rightarrow> loadFood_favorites routeParams_id checkFavorite s')"

subsection \<open>Handlers\<close>

definition handleIncrementExtra :: "int \<Rightarrow> state \<Rightarrow> state" where
  "handleIncrementExtra ident s =
     s\<lparr>extras :=
         map (\<lambda>extra. if extra_id extra = ident
                       then extra\<lparr>extra_quantity := js_add (extra_quantity extra) (Fin 1)\<rparr>
                       else extra)
             (extras s)\<rparr>"

definition handleDecrementExtra :: "int \<Rightarrow> state \<Rightarrow> state" where
  "handleDecrementExtra ident s =
     s\<lparr>extras :=
         map (\<lambda>extra. if extra_id extra = ident \<and> js_gt (extra_quantity extra) (Fin 0)
                       then extra\<lparr>extra_quantity := js_sub (extra_quantity extra) (Fin 1)\<rparr>
                       else extra)
             (extras s)\<rparr>"

definition handleIncrementFood :: "state \<Rightarrow> state" where
  "handleIncrementFood s = s\<lparr>foodQuantity := js_add (foodQuantity s) (Fin 1)\<rparr>"

definition handleDecrementFood :: "state \<Rightarrow> state" where
  "handleDecrementFood s =
     (if strict_eq (foodQuantity s) (Fin 1) then s
      else s\<lparr>foodQuantity := js_sub (foodQuantity s) (Fin 1)\<rparr>)"

text \<open>
  In \<^verbatim>\<open>toggleFavorite\<close> and \<^verbatim>\<open>handleFinishOrder\<close> the local constant is assigned the
  state's object itself (\<^verbatim>\<open>const favFood = food\<close>), so the \<^verbatim>\<open>delete\<close>s act on the
  object that the \<^verbatim>\<open>food\<close> cell holds: the returned state carries the object without
  the deleted fields, and the same object is the body of the request.
\<close>

definition toggleFavorite :: "state \<Rightarrow> state \<times> effect list" where
  "toggleFavorite s =
     (let favFood = (food s)\<lparr>food_extras := None, formattedPrice := None\<rparr>;
          s1 = s\<lparr>food := favFood\<rparr>
      in if \<not> isFavorite s
         then (s1\<lparr>isFavorite := True\<rparr>, [PostFavorite favFood])
         else (s1\<lparr>isFavorite := False\<rparr>, [DeleteFavorite (food_id favFood)]))"

text \<open>
  \<^verbatim>\<open>handleFinishOrder\<close> awaits the request and navigates back only when it succeeded
  (\<open>posted\<close>).
\<close>

definition handleFinishOrder :: "bool \<Rightarrow> state \<Rightarrow> state \<times> effect list" where
  "handleFinishOrder posted s =
     (let orderCompleted = (food s)\<lparr>formattedPrice := None\<rparr>
      in (s\<lparr>food := orderCompleted\<rparr>,
          PostOrder orderCompleted # (if posted then [GoBack] else [])))"

subsection \<open>The total\<close>

definition totalExtras :: "Extra list \<Rightarrow> number" where
  "totalExtras xs =
     foldl (\<lambda>accumulator extra.
              let extrasSubtotal = js_mul (extra_value extra) (extra_quantity extra)
              in js_add accumulator extrasSubtotal)
           (Fin 0) xs"

definition total_amount :: "state \<Rightarrow> number" where
  "total_amount s =
     (let parsedTotalExtras = parseFloat (template (Some (totalExtras (extras s))));
          parsedFoodPrice = parseFloat (template (food_price (food s)))
      in js_mul (js_add parsedTotalExtras parsedFoodPrice) (foodQuantity s))"

definition cartTotal :: "(number option \<Rightarrow> string) \<Rightarrow> state \<Rightarrow> string" where
  "cartTotal formatValue s = formatValue (Some (total_amount s))"

subsection \<open>Reachable states\<close>

text \<open>
  The events of a screen session, each handled to completion before the next. The two
  parts of \<^verbatim>\<open>loadFood\<close> are separate events, since taps can fall between them; a
  change of the route parameter loads again. The relation also admits the second part
  after a first part that ended early, so it reaches at least the states the component
  can be in.
\<close>

datatype event =
    LoadItem "Food option"
  | LoadFavorites int "Food list option"
  | IncrementExtra int
  | DecrementExtra int
  | IncrementFood
  | DecrementFood
  | ToggleFavorite
  | FinishOrder bool

fun handle :: "(number option \<Rightarrow> string) \<Rightarrow> event \<Rightarrow> state \<Rightarrow> state" where
  "handle formatValue (LoadItem response) s = fst (loadFood_item formatValue response s)"
| "handle formatValue (LoadFavorites routeParams_id checkFavorite) s =
     loadFood_favorites routeParams_id checkFavorite s"
| "handle formatValue (IncrementExtra ident) s = handleIncrementExtra ident s"
| "handle formatValue (DecrementExtra ident) s = handleDecrementExtra ident s"
| "handle formatValue IncrementFood s = handleIncrementFood s"
| "handle formatValue DecrementFood s = handleDecrementFood s"
| "handle formatValue ToggleFavorite s = fst (toggleFavorite s)"
| "handle formatValue (FinishOrder posted) s = fst (handleFinishOrder posted s)"

inductive reachable :: "(number option \<Rightarrow> string) \<Rightarrow> state \<Rightarrow> bool"
  for formatValue :: "number option \<Rightarrow> string" where
  reachable_init: "reachable formatValue initial_state"
| reachable_step: "reachable formatValue s \<Longrightarrow> reachable formatValue (handle formatValue ev s)"

subsection \<open>Exact runs of the total\<close>

text \<open>
  \<open>fin_val\<close> reads the rational a finite number denotes. An operation is exact when its
  real result is a binary64 value, so that rounding changes nothing; \<open>exact_total\<close> says
  that every operation of \<^verbatim>\<open>cartTotal\<close> is exact in a state whose item has a price.
  \<open>spec_total\<close> is the total as the specification writes it, over the rationals:
  the sum of value times quantity over the extras, plus the price, times the item quantity.
\<close>

fun fin_val :: "number \<Rightarrow> rat" where
  "fin_val (Fin a) = a"
| "fin_val x = 0"

fun exact_add :: "number \<Rightarrow> number \<Rightarrow> bool" where
  "exact_add (Fin a) (Fin b) = (round64 (a + b) = Fin (a + b))"
| "exact_add x y = False"

fun exact_mul :: "number \<Rightarrow> number \<Rightarrow> bool" where
  "exact_mul (Fin a) (Fin b) = (round64 (a * b) = Fin (a * b))"
| "exact_mul x y = False"

fun is_fin :: "number \<Rightarrow> bool" where
  "is_fin (Fin a) = True"
| "is_fin x = False"

fun exact_extras :: "number \<Rightarrow> Extra list \<Rightarrow> bool" where
  "exact_extras accumulator [] = is_fin accumulator"
| "exact_extras accumulator (extra # xs) =
     (exact_mul (extra_value extra) (extra_quantity extra) \<and>
      exact_add accumulator (js_mul (extra_value extra) (extra_quantity extra)) \<and>
      exact_extras (js_add accumulator (js_mul (extra_value extra) (extra_quantity extra))) xs)"

definition exact_total :: "state \<Rightarrow> bool" where
  "exact_total s =
     (case food_price (food s) of
        None \<Rightarrow> False
      | Some p \<Rightarrow>
          exact_extras (Fin 0) (extras s) \<and>
          exact_add (totalExtras (extras s)) p \<and>
          exact_mul (js_add (totalExtras (extras s)) p) (foodQuantity s))"

definition spec_total :: "Extra list \<Rightarrow> rat \<Rightarrow> rat \<Rightarrow> rat" where
  "spec_total xs p q =
     (sum_list (map (\<lambda>e. fin_val (extra_value e) * fin_val (extra_quantity e)) xs) + p) * q"


subsection \<open>Counting quantities\<close>

text \<open>
  \<open>count_from lo q\<close>: the number \<open>q\<close> is a whole number from \<open>lo\<close> to \<open>2\<^sup>5\<^sup>3\<close>, the range
  in which adding and subtracting one is exact.
\<close>

definition count_from :: "int \<Rightarrow> number \<Rightarrow> bool" where
  "count_from lo q = (\<exists>n. q = Fin (of_int n) \<and> lo \<le> n \<and> n \<le> 2 ^ 53)"

subsection \<open>Sessions and sample data\<close>

text \<open>The state after a list of events, handled in order.\<close>

fun run :: "(number option \<Rightarrow> string) \<Rightarrow> event list \<Rightarrow> state \<Rightarrow> state" where
  "run formatValue [] s = s"
| "run formatValue (ev # evs) s = run formatValue evs (handle formatValue ev s)"

text \<open>
  For closed examples: a stand-in formatter, an item as the server sends it (price
  \<open>19.90\<close>, two extras), the state after loading it while the favorites list is empty,
  the state after the events plus, plus, minus on the item quantity, and the state after
  loading the item, choosing the first extra twice and a second item.
\<close>

definition sample_formatValue :: "number option \<Rightarrow> string" where
  "sample_formatValue x = ''R$''"

definition server_extras :: "Extra list" where
  "server_extras =
     [\<lparr>extra_id = 1, extra_name = ''Bacon'', extra_value = round64 (3 / 2), extra_quantity = Fin 0\<rparr>,
      \<lparr>extra_id = 2, extra_name = ''Frango'', extra_value = round64 2, extra_quantity = Fin 0\<rparr>]"

definition server_food :: Food where
  "server_food =
     \<lparr>food_id = Some 5, food_name = Some ''Ao molho'', food_description = Some ''Macarrao'',
      food_price = Some (round64 (199 / 10)), food_image_url = Some ''ao_molho.png'',
      formattedPrice = None, food_extras = Some server_extras\<rparr>"

definition loaded_state :: state where
  "loaded_state =
     loadFood sample_formatValue 5 (Some server_food) (Some []) initial_state"

definition two_items :: state where
  "two_items = run sample_formatValue [IncrementFood, IncrementFood, DecrementFood] initial_state"

definition session_state :: state where
  "session_state =
     run sample_formatValue
       [LoadItem (Some server_food), LoadFavorites 5 (Some []),
        IncrementExtra 1, IncrementExtra 1, IncrementFood]
       initial_state"

text \<open>
  For the total: an item with price \<open>10\<close> whose extras the server lists in a given order,
  and the state with that item loaded, given quantities of the extras and a given item
  quantity. \<open>decimal_extras\<close> are three extras priced \<open>0.1\<close>, \<open>1.5\<close> and \<open>3.3\<close> (the
  binary64 values of these literals), one of each chosen; \<open>scenario_extras\<close> are the
  extras of the specification's scenario, \<open>2.00\<close> chosen twice and \<open>1.50\<close> not chosen.
\<close>

definition item_food :: "Extra list \<Rightarrow> Food" where
  "item_food xs =
     \<lparr>food_id = Some 5, food_name = Some ''Ao molho'', food_description = Some ''Macarrao'',
      food_price = Some (Fin 10), food_image_url = Some ''ao_molho.png'',
      formattedPrice = None,
      food_extras = Some (map (\<lambda>extra. extra\<lparr>extra_quantity := Fin 0\<rparr>) xs)\<rparr>"

definition item_state :: "Extra list \<Rightarrow> number \<Rightarrow> state" where
  "item_state xs q =
     \<lparr>food = (item_food xs)\<lparr>formattedPrice := Some (sample_formatValue (Some (Fin 10)))\<rparr>,
      extras = xs, isFavorite = False, foodQuantity = q\<rparr>"

definition decimal_extras :: "Extra list" where
  "decimal_extras =
     [\<lparr>extra_id = 1, extra_name = ''Bacon'', extra_value = round64 (1 / 10), extra_quantity = Fin 1\<rparr>,
      \<lparr>extra_id = 2, extra_name = ''Frango'', extra_value = round64 (3 / 2), extra_quantity = Fin 1\<rparr>,
      \<lparr>extra_id = 3, extra_name = ''Queijo'', extra_value = round64 (33 / 10), extra_quantity = Fin 1\<rparr>]"

definition scenario_extras :: "Extra list" where
  "scenario_extras =
     [\<lparr>extra_id = 1, extra_name = ''Bacon'', extra_value = round64 2, extra_quantity = Fin 2\<rparr>,
      \<lparr>extra_id = 2, extra_name = ''Frango'', extra_value = round64 (3 / 2), extra_quantity = Fin 0\<rparr>]"

text \<open>
  The loaded sample item after \<open>k\<close> taps on the plus of its first extra, and after
  \<open>2\<^sup>5\<^sup>3\<close> of them.
\<close>

definition taps_state :: "nat \<Rightarrow> state" where
  "taps_state k =
     \<lparr>food = food loaded_state,
      extras =
        [\<lparr>extra_id = 1, extra_name = ''Bacon'', extra_value = round64 (3 / 2),
          extra_quantity = Fin (of_nat k)\<rparr>,
         \<lparr>extra_id = 2, extra_name = ''Frango'', extra_value = round64 2,
          extra_quantity = Fin 0\<rparr>],
      isFavorite = False, foodQuantity = Fin 1\<rparr>"

definition top_state :: state where
  "top_state = taps_state (2 ^ 53)"

text \<open>
  For the favorite flag: the favorites list that holds the sample item (as
  \<^verbatim>\<open>toggleFavorite\<close> posts it), the state after loading item \<open>5\<close>, a favorite, and then
  item \<open>6\<close>, which is none, on a change of the route parameter; and the state after a tap
  on the favorite icon that comes before the first load, the list being empty.
\<close>

definition favorite_list :: "Food list" where
  "favorite_list = [server_food\<lparr>food_extras := None\<rparr>]"

definition reload_state :: state where
  "reload_state =
     loadFood sample_formatValue 6 (Some (server_food\<lparr>food_id := Some 6\<rparr>)) (Some favorite_list)
       (loadFood sample_formatValue 5 (Some server_food) (Some favorite_list) initial_state)"

definition early_tap_state :: state where
  "early_tap_state =
     loadFood sample_formatValue 5 (Some server_food) (Some [])
       (fst (toggleFavorite initial_state))"

section \<open>Properties\<close>

subsection \<open>The rounding\<close>

text \<open>
  What pins \<open>round64\<close> down as rounding to nearest, ties to even: \<open>ilog2\<close> is the binary
  exponent; \<open>round_half_even\<close> is within one half of its argument and even when exactly
  one half away; a finite \<open>round64 r\<close> is within half a unit in the last place of \<open>r\<close>,
  and its multiple of that unit is at most \<open>2\<^sup>5\<^sup>3\<close>.
\<close>

lemma pow2_pos: "0 < pow2 k"
  by (simp add: pow2_def)

lemma pow2_nat: "pow2 (int n) = 2 ^ n"
  by (simp add: pow2_def)

lemma pow2_neg_nat: "pow2 (- int n) = 1 / 2 ^ n"
  by (cases "n = 0") (simp_all add: pow2_def)

lemma of_int_le_pow2: "n \<le> 2 ^ b \<Longrightarrow> rat_of_int n \<le> 2 ^ b"
  by (metis of_int_le_iff of_int_numeral of_int_power)

lemma pow2_le_of_int: "2 ^ b \<le> n \<Longrightarrow> 2 ^ b \<le> rat_of_int n"
  by (metis of_int_le_iff of_int_numeral of_int_power)

lemma bitlen_nat_bounds:
  assumes "1 \<le> n"
  shows "\<exists>b. 1 \<le> b \<and> bitlen n = int b \<and> 2 ^ (b - 1) \<le> n \<and> n < 2 ^ b"
proof -
  have nz: "bitlen n \<noteq> 0" using assms bitlen_eq_zero_iff[of n] by simp
  with bitlen_nonneg[of n] obtain b where b: "bitlen n = int b" "1 \<le> b"
    by (metis One_nat_def Suc_leI nat_0_le of_nat_0 zero_less_iff_neq_zero)
  have c: "nat (int b - 1) = b - 1" "nat (int b) = b" by simp_all
  from assms have "0 < n" by simp
  from bitlen_bounds[OF this] have "2 ^ (b - 1) \<le> n" "n < 2 ^ b"
    unfolding b(1) c by simp_all
  with b show ?thesis by blast
qed

lemma ilog2_bounds:
  assumes "0 < r"
  shows "pow2 (ilog2 r) \<le> r \<and> r < pow2 (ilog2 r + 1)"
proof (cases "1 \<le> r")
  case True
  define n where "n = \<lfloor>r\<rfloor>"
  have n1: "1 \<le> n" using True by (simp add: n_def le_floor_iff)
  from bitlen_nat_bounds[OF n1] obtain b
    where b: "1 \<le> b" "bitlen n = int b" "2 ^ (b - 1) \<le> n" "n < 2 ^ b" by blast
  have e1: "ilog2 r = int (b - 1)"
    using True b(1,2) by (simp add: ilog2_def n_def[symmetric] of_nat_diff)
  have e2: "ilog2 r + 1 = int b"
    using True b(1,2) by (simp add: ilog2_def n_def[symmetric])
  have "(2::rat) ^ (b - 1) \<le> of_int n" using b(3) by (rule pow2_le_of_int)
  also have "\<dots> \<le> r" by (simp add: n_def)
  finally have lo: "pow2 (ilog2 r) \<le> r" by (simp only: e1 pow2_nat)
  have "n + 1 \<le> 2 ^ b" using b(4) by simp
  then have "rat_of_int (n + 1) \<le> 2 ^ b" by (rule of_int_le_pow2)
  moreover have "r < of_int (n + 1)" unfolding n_def by linarith
  ultimately have "r < 2 ^ b" by (rule less_le_trans[rotated])
  then have "r < pow2 (ilog2 r + 1)" by (simp only: e2 pow2_nat)
  with lo show ?thesis by simp
next
  case False
  then have r1: "r < 1" by simp
  define c where "c = \<lceil>1 / r\<rceil>"
  have inv: "1 < 1 / r" using assms r1 by simp
  have c2: "1 \<le> c - 1" unfolding c_def using inv by linarith
  from bitlen_nat_bounds[OF c2] obtain k
    where k: "1 \<le> k" "bitlen (c - 1) = int k" "2 ^ (k - 1) \<le> c - 1" "c - 1 < 2 ^ k" by blast
  have e1: "ilog2 r = - int k"
    using False k(2) by (simp add: ilog2_def c_def[symmetric])
  have e2: "ilog2 r + 1 = - int (k - 1)"
    using k(1) by (simp add: e1 of_nat_diff)
  have "c \<le> 2 ^ k" using k(4) by simp
  then have "rat_of_int c \<le> 2 ^ k" by (rule of_int_le_pow2)
  moreover have "1 / r \<le> of_int c" by (simp add: c_def)
  ultimately have "1 / r \<le> 2 ^ k" by (rule order_trans[rotated])
  then have "1 / 2 ^ k \<le> r" using assms by (simp add: field_simps)
  then have lo: "pow2 (ilog2 r) \<le> r" by (simp only: e1 pow2_neg_nat)
  have "(2::rat) ^ (k - 1) \<le> of_int (c - 1)" using k(3) by (rule pow2_le_of_int)
  moreover have "of_int (c - 1) < 1 / r" unfolding c_def by linarith
  ultimately have "(2::rat) ^ (k - 1) < 1 / r" by (rule le_less_trans)
  then have "r < 1 / 2 ^ (k - 1)" using assms by (simp add: field_simps)
  then have "r < pow2 (ilog2 r + 1)" by (simp only: e2 pow2_neg_nat)
  with lo show ?thesis by simp
qed

lemma round_half_even_near: "\<bar>x - of_int (round_half_even x)\<bar> \<le> 1 / 2"
proof -
  have "of_int \<lfloor>x\<rfloor> \<le> x" "x < of_int \<lfloor>x\<rfloor> + 1" by linarith+
  then show ?thesis by (auto simp: round_half_even_def Let_def)
qed

lemma round_half_even_tie:
  "\<bar>x - of_int (round_half_even x)\<bar> = 1 / 2 \<Longrightarrow> even (round_half_even x)"
proof -
  have "of_int \<lfloor>x\<rfloor> \<le> x" "x < of_int \<lfloor>x\<rfloor> + 1" by linarith+
  then show "\<bar>x - of_int (round_half_even x)\<bar> = 1 / 2 \<Longrightarrow> even (round_half_even x)"
    by (auto simp: round_half_even_def Let_def split: if_splits)
qed

lemma round64_near:
  assumes "round64 r = Fin v" "r \<noteq> 0"
  shows "\<bar>r - v\<bar> \<le> pow2 (max (ilog2 \<bar>r\<bar>) (- 1022) - 52) / 2"
proof -
  define u where "u = pow2 (max (ilog2 \<bar>r\<bar>) (- 1022) - 52)"
  define m where "m = round_half_even (\<bar>r\<bar> / u)"
  have u: "0 < u" by (simp add: u_def pow2_pos)
  from assms have v: "v = (if 0 < r then 1 else - 1) * of_int m * u"
    by (auto simp: round64_def Let_def u_def m_def split: if_splits)
  have "\<bar>\<bar>r\<bar> / u - of_int m\<bar> \<le> 1 / 2"
    unfolding m_def by (rule round_half_even_near)
  then have "\<bar>\<bar>r\<bar> / u - of_int m\<bar> * u \<le> 1 / 2 * u"
    using u by (intro mult_right_mono) auto
  moreover have "\<bar>\<bar>r\<bar> / u - of_int m\<bar> * u = \<bar>(\<bar>r\<bar> / u - of_int m) * u\<bar>"
    using u by (simp add: abs_mult)
  moreover have "(\<bar>r\<bar> / u - of_int m) * u = \<bar>r\<bar> - of_int m * u"
    using u by (simp add: left_diff_distrib)
  moreover have "\<bar>\<bar>r\<bar> - of_int m * u\<bar> = \<bar>r - v\<bar>"
  proof (cases "0 < r")
    case True
    then show ?thesis by (simp add: v)
  next
    case False
    with assms(2) have "r < 0" by simp
    then have "\<bar>r\<bar> - of_int m * u = - (r - v)" by (simp add: v)
    then show ?thesis by (simp only: abs_minus_cancel)
  qed
  ultimately show ?thesis by (simp add: u_def)
qed

lemma pow2_powi: "pow2 k = 2 powi k"
  by (simp add: pow2_def power_int_def power_one_over)

lemma pow2_add: "pow2 (a + b) = pow2 a * pow2 b"
  by (simp add: pow2_powi power_int_add)

lemma pow2_mono: "a \<le> b \<Longrightarrow> pow2 a \<le> pow2 b"
  by (simp add: pow2_powi power_int_increasing)

lemma round_half_even_le: "x < of_int n \<Longrightarrow> round_half_even x \<le> n"
proof -
  assume "x < of_int n"
  then have "\<lfloor>x\<rfloor> < n" by (simp add: floor_less_iff)
  then show ?thesis by (simp add: round_half_even_def Let_def)
qed

lemma round64_mantissa:
  assumes "r \<noteq> 0"
  shows "round_half_even (\<bar>r\<bar> / pow2 (max (ilog2 \<bar>r\<bar>) (- 1022) - 52)) \<le> 2 ^ 53"
proof -
  define e where "e = max (ilog2 \<bar>r\<bar>) (- 1022)"
  from assms have "\<bar>r\<bar> < pow2 (ilog2 \<bar>r\<bar> + 1)" using ilog2_bounds[of "\<bar>r\<bar>"] by simp
  also have "\<dots> \<le> pow2 (e + 1)" by (rule pow2_mono) (simp add: e_def)
  also have "\<dots> = pow2 53 * pow2 (e - 52)"
  proof -
    have "e + 1 = 53 + (e - 52)" by simp
    then show ?thesis by (simp only: pow2_add)
  qed
  finally have "\<bar>r\<bar> / pow2 (e - 52) < pow2 53"
    using pow2_pos[of "e - 52"] by (simp add: pos_divide_less_eq)
  also have "pow2 53 = of_int (2 ^ 53)" by (simp add: pow2_def)
  finally show ?thesis unfolding e_def by (rule round_half_even_le)
qed

subsection \<open>Whole numbers are exact up to \<open>2\<^sup>5\<^sup>3\<close>\<close>

lemma round_half_even_of_int: "round_half_even (of_int k) = k"
  by (simp add: round_half_even_def)

lemma round64_pow53: "round64 (2 ^ 53) = Fin (2 ^ 53)"
  by code_simp

lemma round64_pow53_succ: "round64 (2 ^ 53 + 1) = Fin (2 ^ 53)"
  by code_simp

lemma ilog2_of_int:
  assumes "1 \<le> n"
  shows "ilog2 (of_int n) = bitlen n - 1"
  using assms by (simp add: ilog2_def)

lemma round64_of_int:
  assumes "0 \<le> n" "n \<le> 2 ^ 53"
  shows "round64 (of_int n) = Fin (of_int n)"
proof (cases "n = 0")
  case True
  then show ?thesis by (simp add: round64_def)
next
  case False
  with assms have pos: "0 < n" by simp
  define e where "e = bitlen n - 1"
  have e0: "0 \<le> e"
    using pos bitlen_eq_zero_iff[of n] bitlen_nonneg[of n] unfolding e_def by linarith
  have lo: "2 ^ nat e \<le> n"
    using bitlen_bounds[OF pos] by (simp add: e_def)
  show ?thesis
  proof (cases "e \<le> 52")
    case True
    define k where "k = nat (52 - e)"
    have ulp: "pow2 (max e (- 1022) - 52) = 1 / 2 ^ k"
      using True e0 by (auto simp: pow2_def k_def max_def)
    have q: "rat_of_int n * 2 ^ k = of_int (n * 2 ^ k)"
      by simp
    have v: "rat_of_int (round_half_even (rat_of_int n * 2 ^ k)) / 2 ^ k = rat_of_int n"
      unfolding q round_half_even_of_int by simp
    have small: "\<not> 1024 \<le> max e (- 1022)" "max e (- 1022) \<noteq> 1023"
      using True by auto
    show ?thesis
      using pos small
      by (simp add: round64_def ilog2_of_int e_def[symmetric] ulp Let_def v)
  next
    case False
    then have "53 \<le> e" by simp
    then have "(2::int) ^ 53 \<le> 2 ^ nat e" by (intro power_increasing) auto
    with lo assms(2) have "n = 2 ^ 53" by linarith
    then show ?thesis using round64_pow53 by simp
  qed
qed

subsection \<open>Quantities stay whole numbers\<close>

lemma count_succ:
  assumes "0 \<le> n" "n < 2 ^ 53"
  shows "js_add (Fin (of_int n)) (Fin 1) = Fin (of_int (n + 1))"
proof -
  have "js_add (Fin (of_int n)) (Fin 1) = round64 (of_int (n + 1))" by simp
  also have "\<dots> = Fin (of_int (n + 1))" using assms by (intro round64_of_int) auto
  finally show ?thesis .
qed

lemma count_succ_top: "js_add (Fin (of_int (2 ^ 53))) (Fin 1) = Fin (of_int (2 ^ 53))"
  using round64_pow53_succ by simp

lemma count_pred:
  assumes "1 \<le> n" "n \<le> 2 ^ 53"
  shows "js_sub (Fin (of_int n)) (Fin 1) = Fin (of_int (n - 1))"
proof -
  have "js_sub (Fin (of_int n)) (Fin 1) = round64 (of_int (n - 1))" by (simp add: js_sub_def)
  also have "\<dots> = Fin (of_int (n - 1))" using assms by (intro round64_of_int) auto
  finally show ?thesis .
qed

lemma count_from_succ:
  assumes "count_from lo q" "0 \<le> lo"
  shows "count_from lo (js_add q (Fin 1))"
proof -
  from assms obtain n where n: "q = Fin (of_int n)" "lo \<le> n" "n \<le> 2 ^ 53"
    by (auto simp: count_from_def)
  show ?thesis
  proof (cases "n < 2 ^ 53")
    case True
    with n assms(2) have "js_add q (Fin 1) = Fin (of_int (n + 1))"
      by (simp only: n(1)) (rule count_succ, auto)
    with n True show ?thesis unfolding count_from_def by (intro exI[of _ "n + 1"]) auto
  next
    case False
    with n have "n = 2 ^ 53" by simp
    with n have "js_add q (Fin 1) = q" using count_succ_top by simp
    with assms show ?thesis by simp
  qed
qed

lemma count_from_pred:
  assumes "count_from lo q" "0 \<le> lo" "js_gt q (Fin (of_int lo))"
  shows "count_from lo (js_sub q (Fin 1))"
proof -
  from assms obtain n where n: "q = Fin (of_int n)" "lo \<le> n" "n \<le> 2 ^ 53"
    by (auto simp: count_from_def)
  from assms(3) n have "lo < n" by simp
  with n assms(2) have "js_sub q (Fin 1) = Fin (of_int (n - 1))"
    by (simp only: n(1)) (rule count_pred, auto)
  with n \<open>lo < n\<close> show ?thesis unfolding count_from_def by (intro exI[of _ "n - 1"]) auto
qed

lemma foodQuantity_count: "reachable formatValue s \<Longrightarrow> count_from 1 (foodQuantity s)"
proof (induction rule: reachable.induct)
  case reachable_init
  show ?case by (simp add: initial_state_def count_from_def exI[of _ 1])
next
  case (reachable_step s ev)
  show ?case
  proof (cases ev)
    case (LoadItem response)
    with reachable_step show ?thesis
      by (simp add: loadFood_item_def Let_def split: option.splits)
  next
    case (LoadFavorites rid favs)
    with reachable_step show ?thesis
      by (simp add: loadFood_favorites_def Let_def split: option.splits)
  next
    case (IncrementExtra ident)
    with reachable_step show ?thesis by (simp add: handleIncrementExtra_def)
  next
    case (DecrementExtra ident)
    with reachable_step show ?thesis by (simp add: handleDecrementExtra_def)
  next
    case IncrementFood
    with reachable_step show ?thesis
      by (simp add: handleIncrementFood_def count_from_succ)
  next
    case DecrementFood
    show ?thesis
    proof (cases "strict_eq (foodQuantity s) (Fin 1)")
      case True
      with DecrementFood reachable_step show ?thesis by (simp add: handleDecrementFood_def)
    next
      case False
      from reachable_step.IH obtain n
        where n: "foodQuantity s = Fin (of_int n)" "1 \<le> n" "n \<le> 2 ^ 53"
        by (auto simp: count_from_def)
      with False have "n \<noteq> 1" by (auto simp: strict_eq_def)
      with n have "js_gt (foodQuantity s) (Fin (of_int 1))" by simp
      with reachable_step.IH have "count_from 1 (js_sub (foodQuantity s) (Fin 1))"
        by (intro count_from_pred) auto
      with False DecrementFood show ?thesis by (simp add: handleDecrementFood_def)
    qed
  next
    case ToggleFavorite
    with reachable_step show ?thesis by (simp add: toggleFavorite_def Let_def)
  next
    case (FinishOrder posted)
    with reachable_step show ?thesis by (simp add: handleFinishOrder_def Let_def)
  qed
qed

lemma extras_count:
  "reachable formatValue s \<Longrightarrow> \<forall>extra \<in> set (extras s). count_from 0 (extra_quantity extra)"
proof (induction rule: reachable.induct)
  case reachable_init
  show ?case by (simp add: initial_state_def)
next
  case (reachable_step s ev)
  have zero: "count_from 0 (Fin 0)" by (simp add: count_from_def exI[of _ 0])
  show ?case
  proof (cases ev)
    case (LoadItem response)
    with reachable_step zero show ?thesis
      by (auto simp add: loadFood_item_def Let_def split: option.splits)
  next
    case (LoadFavorites rid favs)
    with reachable_step show ?thesis
      by (simp add: loadFood_favorites_def Let_def split: option.splits)
  next
    case (IncrementExtra ident)
    with reachable_step show ?thesis
      by (auto simp add: handleIncrementExtra_def count_from_succ)
  next
    case (DecrementExtra ident)
    with reachable_step show ?thesis
      using count_from_pred[of 0] by (auto simp add: handleDecrementExtra_def)
  next
    case IncrementFood
    with reachable_step show ?thesis by (simp add: handleIncrementFood_def)
  next
    case DecrementFood
    with reachable_step show ?thesis by (simp add: handleDecrementFood_def)
  next
    case ToggleFavorite
    with reachable_step show ?thesis by (simp add: toggleFavorite_def Let_def)
  next
    case (FinishOrder posted)
    with reachable_step show ?thesis by (simp add: handleFinishOrder_def Let_def)
  qed
qed

lemma reachable_run:
  "reachable formatValue s \<Longrightarrow> reachable formatValue (run formatValue evs s)"
  by (induction evs arbitrary: s) (auto intro: reachable_step)

lemma count_fromD: "count_from lo q \<Longrightarrow> \<exists>n. lo \<le> n \<and> q = Fin (of_int n)"
  by (auto simp: count_from_def)

subsection \<open>Sessions\<close>

lemma loaded_state_value:
  "loaded_state =
     \<lparr>food = server_food\<lparr>formattedPrice := Some (sample_formatValue (food_price server_food))\<rparr>,
      extras = server_extras, isFavorite = False, foodQuantity = Fin 1\<rparr>"
  by (simp add: loaded_state_def loadFood_def loadFood_item_def loadFood_favorites_def
      findIndex_def initial_state_def server_food_def server_extras_def Let_def)

lemma run_snoc: "run formatValue (evs @ [ev]) s = handle formatValue ev (run formatValue evs s)"
  by (induction evs arbitrary: s) simp_all

lemma loadFood_run:
  "food_extras data = Some xs \<Longrightarrow>
   loadFood formatValue routeParams_id (Some data) checkFavorite s =
   run formatValue [LoadItem (Some data), LoadFavorites routeParams_id checkFavorite] s"
  by (simp add: loadFood_def loadFood_item_def Let_def)

lemma reachable_loadFood:
  assumes "food_extras data = Some xs" "reachable formatValue s"
  shows "reachable formatValue (loadFood formatValue routeParams_id (Some data) checkFavorite s)"
  unfolding loadFood_run[OF assms(1)] using assms(2) by (rule reachable_run)

lemma server_food_extras: "food_extras server_food = Some server_extras"
  by (simp add: server_food_def)

lemma loaded_reachable: "reachable sample_formatValue loaded_state"
  unfolding loaded_state_def
  by (intro reachable_loadFood[OF server_food_extras] reachable_init)

lemma taps_zero: "taps_state 0 = loaded_state"
  by (simp add: taps_state_def loaded_state_value server_extras_def)

lemma taps_step:
  assumes "k < 2 ^ 53"
  shows "handleIncrementExtra 1 (taps_state k) = taps_state (Suc k)"
proof -
  have "int k < 2 ^ 53" using assms by (metis of_nat_less_iff of_nat_numeral of_nat_power)
  with count_succ[of "int k"]
  have "js_add (Fin (of_int (int k))) (Fin 1) = Fin (of_int (int k + 1))" by simp
  then have "js_add (Fin (of_nat k)) (Fin 1) = Fin (of_nat (Suc k))"
    by (simp add: add.commute del: js_add.simps)
  then show ?thesis
    by (simp add: handleIncrementExtra_def taps_state_def del: js_add.simps of_nat_Suc)
qed

lemma taps_run:
  "k \<le> 2 ^ 53 \<Longrightarrow>
   run formatValue (replicate k (IncrementExtra 1)) loaded_state = taps_state k"
proof (induction k)
  case 0
  show ?case by (simp add: taps_zero)
next
  case (Suc k)
  then have k: "k < 2 ^ 53" "k \<le> 2 ^ 53" by simp_all
  have "replicate (Suc k) (IncrementExtra 1) = replicate k (IncrementExtra 1) @ [IncrementExtra 1]"
    by (simp add: replicate_append_same)
  then show ?case
    by (simp only: run_snoc Suc.IH[OF k(2)] handle.simps taps_step[OF k(1)])
qed

lemma top_reachable: "reachable sample_formatValue top_state"
proof -
  have "run sample_formatValue (replicate (2 ^ 53) (IncrementExtra 1)) loaded_state = top_state"
    unfolding top_state_def by (rule taps_run) simp
  then show ?thesis using reachable_run[OF loaded_reachable] by metis
qed

subsection \<open>The total (C1)\<close>

lemma exact_mulD: "exact_mul x y \<Longrightarrow> js_mul x y = Fin (fin_val x * fin_val y)"
  by (cases x; cases y) simp_all

lemma exact_addD: "exact_add x y \<Longrightarrow> js_add x y = Fin (fin_val x + fin_val y)"
  by (cases x; cases y) simp_all

lemma is_finD: "is_fin x \<Longrightarrow> x = Fin (fin_val x)"
  by (cases x) simp_all

lemma foldl_exact:
  "exact_extras accumulator xs \<Longrightarrow>
   foldl (\<lambda>accumulator extra.
            js_add accumulator (js_mul (extra_value extra) (extra_quantity extra))) accumulator xs =
   Fin (fin_val accumulator +
        sum_list (map (\<lambda>e. fin_val (extra_value e) * fin_val (extra_quantity e)) xs))"
proof (induction xs arbitrary: accumulator)
  case Nil
  then show ?case using is_finD[of accumulator] by simp
next
  case (Cons extra xs)
  let ?sub = "js_mul (extra_value extra) (extra_quantity extra)"
  from Cons.prems have m: "fin_val ?sub = fin_val (extra_value extra) * fin_val (extra_quantity extra)"
    by (simp add: exact_mulD)
  from Cons.prems have a: "fin_val (js_add accumulator ?sub) = fin_val accumulator + fin_val ?sub"
    by (simp add: exact_addD)
  from Cons.prems have "exact_extras (js_add accumulator ?sub) xs" by simp
  from Cons.IH[OF this] show ?case
    by (simp add: a m add.assoc)
qed

lemma totalExtras_exact:
  "exact_extras (Fin 0) xs \<Longrightarrow> totalExtras xs = Fin (spec_total xs 0 1)"
  by (simp add: totalExtras_def spec_total_def Let_def foldl_exact)

lemma spec_total_mset:
  assumes "mset xs = mset ys"
  shows "spec_total xs p q = spec_total ys p q"
proof -
  let ?f = "\<lambda>e. fin_val (extra_value e) * fin_val (extra_quantity e)"
  have "sum_list (map ?f xs) = sum_mset (image_mset ?f (mset xs))"
    by (metis mset_map sum_mset_sum_list)
  also have "\<dots> = sum_mset (image_mset ?f (mset ys))" by (simp add: assms)
  also have "\<dots> = sum_list (map ?f ys)" by (metis mset_map sum_mset_sum_list)
  finally show ?thesis by (simp add: spec_total_def)
qed

lemma total_amount_loaded:
  "food_price (food s) = Some p \<Longrightarrow>
   total_amount s = js_mul (js_add (totalExtras (extras s)) p) (foodQuantity s)"
  by (simp add: total_amount_def)

lemma total_amount_exact_value:
  assumes "exact_total s"
  shows "total_amount s =
         Fin (spec_total (extras s) (fin_val (the (food_price (food s)))) (fin_val (foodQuantity s)))"
proof -
  from assms obtain p where p: "food_price (food s) = Some p"
    and ex: "exact_extras (Fin 0) (extras s)"
    and ea: "exact_add (totalExtras (extras s)) p"
    and em: "exact_mul (js_add (totalExtras (extras s)) p) (foodQuantity s)"
    by (auto simp: exact_total_def split: option.splits)
  have t: "totalExtras (extras s) = Fin (spec_total (extras s) 0 1)"
    using ex by (rule totalExtras_exact)
  have a: "js_add (totalExtras (extras s)) p = Fin (spec_total (extras s) 0 1 + fin_val p)"
    using exact_addD[OF ea] t by simp
  have "total_amount s = Fin ((spec_total (extras s) 0 1 + fin_val p) * fin_val (foodQuantity s))"
    using exact_mulD[OF em] a p by (simp add: total_amount_loaded)
  then show ?thesis by (simp add: p spec_total_def)
qed

text \<open>
  Claim C1, as the code has it. For an item with price \<open>p\<close> the derived total is
  \<open>(totalExtras + p) * foodQuantity\<close> in binary64 arithmetic, the sum running over the
  extras from left to right. In a state where no operation rounds, the total is the exact
  value \<open>(\<Sum> value * quantity + price) * quantity\<close> of the specification, and every other
  such state with the same extras in another order, the same price and the same item
  quantity has the same total.
\<close>

theorem total_amount_exact:
  "(food_price (food s) = Some p \<longrightarrow>
      total_amount s = js_mul (js_add (totalExtras (extras s)) p) (foodQuantity s)) \<and>
   (exact_total s \<longrightarrow>
      total_amount s =
        Fin (spec_total (extras s) (fin_val (the (food_price (food s)))) (fin_val (foodQuantity s))) \<and>
      (\<forall>s'. exact_total s' \<and> mset (extras s') = mset (extras s) \<and>
            food_price (food s') = food_price (food s) \<and> foodQuantity s' = foodQuantity s \<longrightarrow>
            total_amount s' = total_amount s))"
proof (intro conjI impI allI)
  assume "food_price (food s) = Some p"
  then show "total_amount s = js_mul (js_add (totalExtras (extras s)) p) (foodQuantity s)"
    by (rule total_amount_loaded)
next
  assume "exact_total s"
  then show "total_amount s =
      Fin (spec_total (extras s) (fin_val (the (food_price (food s)))) (fin_val (foodQuantity s)))"
    by (rule total_amount_exact_value)
next
  fix s'
  assume s: "exact_total s"
    and s': "exact_total s' \<and> mset (extras s') = mset (extras s) \<and>
      food_price (food s') = food_price (food s) \<and> foodQuantity s' = foodQuantity s"
  from s' have "total_amount s' =
      Fin (spec_total (extras s') (fin_val (the (food_price (food s)))) (fin_val (foodQuantity s)))"
    using total_amount_exact_value[of s'] by simp
  also have "\<dots> = total_amount s"
    using s' spec_total_mset[of "extras s'" "extras s"] total_amount_exact_value[OF s] by simp
  finally show "total_amount s' = total_amount s" .
qed

text \<open>
  The scenario of the specification: price \<open>10.00\<close>, the first extra chosen twice, three
  items, gives \<open>(10 + 4) * 3 = 42\<close> in either order of the extras.
\<close>

lemma scenario_exact: "exact_total (item_state scenario_extras (Fin 3))"
  by code_simp

lemma scenario_exact_rev: "exact_total (item_state (rev scenario_extras) (Fin 3))"
  by code_simp

theorem total_amount_exact_witness:
  "exact_total (item_state scenario_extras (Fin 3)) \<and>
   exact_total (item_state (rev scenario_extras) (Fin 3)) \<and>
   total_amount (item_state scenario_extras (Fin 3)) = Fin 42 \<and>
   total_amount (item_state (rev scenario_extras) (Fin 3)) = Fin 42"
proof -
  let ?s = "item_state scenario_extras (Fin 3)"
  let ?s' = "item_state (rev scenario_extras) (Fin 3)"
  have v: "spec_total (extras ?s) (fin_val (the (food_price (food ?s)))) (fin_val (foodQuantity ?s)) = 42"
    by code_simp
  have m: "mset (extras ?s') = mset (extras ?s)"
    by (simp add: item_state_def)
  have f: "food_price (food ?s') = food_price (food ?s)" "foodQuantity ?s' = foodQuantity ?s"
    by (simp_all add: item_state_def item_food_def)
  from total_amount_exact[of ?s "Fin 10"] scenario_exact scenario_exact_rev v m f
  show ?thesis by auto
qed

text \<open>
  Claim C1 as stated fails where sums round. Load the item with price \<open>10\<close> and the
  extras priced \<open>0.1\<close>, \<open>1.5\<close> and \<open>3.3\<close> and choose one of each: the total is \<open>14.9\<close>. When
  the server lists the same extras in the reverse order, the total is
  \<open>14.899999999999999\<close>, one unit in the last place less. Neither is the exact value of
  the specification's formula.
\<close>

lemma decimal_session:
  "run sample_formatValue
     [LoadItem (Some (item_food decimal_extras)),
      IncrementExtra 1, IncrementExtra 2, IncrementExtra 3] initial_state =
   item_state decimal_extras (Fin 1)"
  by code_simp

lemma decimal_session_rev:
  "run sample_formatValue
     [LoadItem (Some (item_food (rev decimal_extras))),
      IncrementExtra 1, IncrementExtra 2, IncrementExtra 3] initial_state =
   item_state (rev decimal_extras) (Fin 1)"
  by code_simp

theorem total_amount_order_counterexample:
  "reachable sample_formatValue (item_state decimal_extras (Fin 1)) \<and>
   reachable sample_formatValue (item_state (rev decimal_extras) (Fin 1)) \<and>
   mset (rev decimal_extras) = mset decimal_extras \<and>
   total_amount (item_state decimal_extras (Fin 1)) =
     Fin (8387954305977549 / 562949953421312) \<and>
   total_amount (item_state (rev decimal_extras) (Fin 1)) =
     Fin (2096988576494387 / 140737488355328) \<and>
   total_amount (item_state decimal_extras (Fin 1)) \<noteq>
     total_amount (item_state (rev decimal_extras) (Fin 1)) \<and>
   total_amount (item_state decimal_extras (Fin 1)) \<noteq> Fin (spec_total decimal_extras 10 1) \<and>
   total_amount (item_state (rev decimal_extras) (Fin 1)) \<noteq>
     Fin (spec_total (rev decimal_extras) 10 1)"
proof -
  have r: "reachable sample_formatValue (item_state decimal_extras (Fin 1))"
    unfolding decimal_session[symmetric] by (intro reachable_run reachable_init)
  have r': "reachable sample_formatValue (item_state (rev decimal_extras) (Fin 1))"
    unfolding decimal_session_rev[symmetric] by (intro reachable_run reachable_init)
  have a: "total_amount (item_state decimal_extras (Fin 1)) =
      Fin (8387954305977549 / 562949953421312)"
    by code_simp
  have b: "total_amount (item_state (rev decimal_extras) (Fin 1)) =
      Fin (2096988576494387 / 140737488355328)"
    by code_simp
  have c: "(8387954305977549 / 562949953421312 :: rat) \<noteq> 2096988576494387 / 140737488355328"
    by simp
  have d: "spec_total decimal_extras 10 1 \<noteq> 8387954305977549 / 562949953421312"
    by code_simp
  have e: "spec_total (rev decimal_extras) 10 1 \<noteq> 2096988576494387 / 140737488355328"
    by code_simp
  show ?thesis unfolding a b using r r' c d e by simp
qed

subsection \<open>The item quantity (C2)\<close>

text \<open>
  Claim C2. In every reachable state the item quantity is a whole number that is at
  least \<open>1\<close>, and it still is after \<^verbatim>\<open>handleIncrementFood\<close> and after
  \<^verbatim>\<open>handleDecrementFood\<close>. In any state whose item quantity is \<open>1\<close>,
  \<^verbatim>\<open>handleDecrementFood\<close> changes nothing.
\<close>

theorem foodQuantity_at_least_one:
  "(reachable formatValue s \<longrightarrow>
      (\<exists>n. 1 \<le> n \<and> foodQuantity s = Fin (of_int n)) \<and>
      (\<exists>n. 1 \<le> n \<and> foodQuantity (handleIncrementFood s) = Fin (of_int n)) \<and>
      (\<exists>n. 1 \<le> n \<and> foodQuantity (handleDecrementFood s) = Fin (of_int n))) \<and>
   (foodQuantity s = Fin 1 \<longrightarrow> handleDecrementFood s = s)"
proof (intro conjI impI)
  assume r: "reachable formatValue s"
  then show "\<exists>n. 1 \<le> n \<and> foodQuantity s = Fin (of_int n)"
    by (intro count_fromD foodQuantity_count)
  from r have "reachable formatValue (handle formatValue IncrementFood s)"
    by (rule reachable_step)
  then show "\<exists>n. 1 \<le> n \<and> foodQuantity (handleIncrementFood s) = Fin (of_int n)"
    using count_fromD[OF foodQuantity_count] by fastforce
  from r have "reachable formatValue (handle formatValue DecrementFood s)"
    by (rule reachable_step)
  then show "\<exists>n. 1 \<le> n \<and> foodQuantity (handleDecrementFood s) = Fin (of_int n)"
    using count_fromD[OF foodQuantity_count] by fastforce
next
  assume "foodQuantity s = Fin 1"
  then show "handleDecrementFood s = s"
    by (simp add: handleDecrementFood_def strict_eq_def)
qed

lemma two_items_value: "foodQuantity two_items = Fin 2"
  by code_simp

theorem foodQuantity_at_least_one_witness:
  "reachable sample_formatValue two_items \<and>
   (\<exists>n. 1 \<le> n \<and> foodQuantity two_items = Fin (of_int n)) \<and>
   foodQuantity two_items = Fin 2 \<and>
   foodQuantity (handleDecrementFood two_items) = Fin 1 \<and>
   handleDecrementFood (handleDecrementFood two_items) = handleDecrementFood two_items"
proof -
  have r: "reachable sample_formatValue two_items"
    unfolding two_items_def by (intro reachable_run reachable_init)
  have d: "foodQuantity (handleDecrementFood two_items) = Fin 1"
    by code_simp
  from foodQuantity_at_least_one[of sample_formatValue two_items] r
  have e: "\<exists>n. 1 \<le> n \<and> foodQuantity two_items = Fin (of_int n)"
    by simp
  from foodQuantity_at_least_one[of sample_formatValue "handleDecrementFood two_items"] d
  have "handleDecrementFood (handleDecrementFood two_items) = handleDecrementFood two_items"
    by simp
  with r d e two_items_value show ?thesis by simp
qed

lemma session_reachable: "reachable sample_formatValue session_state"
  unfolding session_state_def by (intro reachable_run reachable_init)

lemma session_extras:
  "extras session_state =
     [\<lparr>extra_id = 1, extra_name = ''Bacon'', extra_value = Fin (3 / 2), extra_quantity = Fin 2\<rparr>,
      \<lparr>extra_id = 2, extra_name = ''Frango'', extra_value = Fin 2, extra_quantity = Fin 0\<rparr>]"
  by code_simp

subsection \<open>The quantities of the extras (C3)\<close>

text \<open>
  Claim C3. In every reachable state each extra's quantity is a whole number that is at
  least \<open>0\<close>, and it still is after \<^verbatim>\<open>handleDecrementExtra\<close>. In any state, for any
  identifier, \<^verbatim>\<open>handleDecrementExtra\<close> leaves every extra whose quantity is \<open>0\<close> as it
  is.
\<close>

theorem extra_quantity_never_negative:
  "(reachable formatValue s \<longrightarrow>
      (\<forall>extra \<in> set (extras s). \<exists>n. 0 \<le> n \<and> extra_quantity extra = Fin (of_int n)) \<and>
      (\<forall>extra \<in> set (extras (handleDecrementExtra ident s)).
          \<exists>n. 0 \<le> n \<and> extra_quantity extra = Fin (of_int n))) \<and>
   (\<forall>i < length (extras s).
      extra_quantity (extras s ! i) = Fin 0 \<longrightarrow>
      extras (handleDecrementExtra ident s) ! i = extras s ! i)"
proof (intro conjI impI allI)
  assume r: "reachable formatValue s"
  then show "\<forall>extra \<in> set (extras s). \<exists>n. 0 \<le> n \<and> extra_quantity extra = Fin (of_int n)"
    using extras_count count_fromD by blast
  from r have "reachable formatValue (handle formatValue (DecrementExtra ident) s)"
    by (rule reachable_step)
  then have "\<forall>extra \<in> set (extras (handle formatValue (DecrementExtra ident) s)).
      \<exists>n. 0 \<le> n \<and> extra_quantity extra = Fin (of_int n)"
    using extras_count count_fromD by blast
  then show "\<forall>extra \<in> set (extras (handleDecrementExtra ident s)).
      \<exists>n. 0 \<le> n \<and> extra_quantity extra = Fin (of_int n)"
    by simp
next
  fix i
  assume "i < length (extras s)" "extra_quantity (extras s ! i) = Fin 0"
  then show "extras (handleDecrementExtra ident s) ! i = extras s ! i"
    by (simp add: handleDecrementExtra_def)
qed

theorem extra_quantity_never_negative_witness:
  "reachable sample_formatValue session_state \<and>
   extra_quantity (extras session_state ! 1) = Fin 0 \<and>
   extras (handleDecrementExtra 2 session_state) ! 1 = extras session_state ! 1 \<and>
   (\<exists>n. 0 \<le> n \<and> extra_quantity (extras session_state ! 0) = Fin (of_int n)) \<and>
   (\<exists>n. 0 \<le> n \<and> extra_quantity (extras (handleDecrementExtra 1 session_state) ! 0) = Fin (of_int n))"
proof -
  note t = extra_quantity_never_negative[of sample_formatValue session_state]
  have l: "length (extras session_state) = 2" "length (extras (handleDecrementExtra 1 session_state)) = 2"
    by (simp_all add: session_extras handleDecrementExtra_def)
  have z: "extra_quantity (extras session_state ! 1) = Fin 0"
    by (simp add: session_extras)
  from t[of 2] z l have a: "extras (handleDecrementExtra 2 session_state) ! 1 = extras session_state ! 1"
    by simp
  have m: "extras session_state ! 0 \<in> set (extras session_state)"
    "extras (handleDecrementExtra 1 session_state) ! 0 \<in>
       set (extras (handleDecrementExtra 1 session_state))"
    using l by simp_all
  from t[of 2] session_reachable
  have "\<forall>extra \<in> set (extras session_state). \<exists>n. 0 \<le> n \<and> extra_quantity extra = Fin (of_int n)"
    by blast
  with m(1) have b: "\<exists>n. 0 \<le> n \<and> extra_quantity (extras session_state ! 0) = Fin (of_int n)"
    by blast
  from t[of 1] session_reachable
  have "\<forall>extra \<in> set (extras (handleDecrementExtra 1 session_state)).
      \<exists>n. 0 \<le> n \<and> extra_quantity extra = Fin (of_int n)"
    by blast
  with m(2)
  have c: "\<exists>n. 0 \<le> n \<and>
      extra_quantity (extras (handleDecrementExtra 1 session_state) ! 0) = Fin (of_int n)"
    by blast
  from session_reachable z a b c show ?thesis by simp
qed

subsection \<open>An identifier that no extra has (C4)\<close>

text \<open>
  Claim C4. When no extra of the state has the identifier, \<^verbatim>\<open>handleIncrementExtra\<close>
  and \<^verbatim>\<open>handleDecrementExtra\<close> return the state as it was, every extra equal in all
  its fields.
\<close>

theorem unknown_id_unchanged:
  assumes "ident \<notin> extra_id ` set (extras s)"
  shows "handleIncrementExtra ident s = s \<and> handleDecrementExtra ident s = s"
proof -
  have i: "map (\<lambda>extra. if extra_id extra = ident
                 then extra\<lparr>extra_quantity := js_add (extra_quantity extra) (Fin 1)\<rparr>
                 else extra) (extras s) = extras s"
    using assms by (intro map_idI) auto
  have d: "map (\<lambda>extra. if extra_id extra = ident \<and> js_gt (extra_quantity extra) (Fin 0)
                 then extra\<lparr>extra_quantity := js_sub (extra_quantity extra) (Fin 1)\<rparr>
                 else extra) (extras s) = extras s"
    using assms by (intro map_idI) auto
  show ?thesis
    unfolding handleIncrementExtra_def handleDecrementExtra_def i d by simp
qed

theorem unknown_id_unchanged_witness:
  "7 \<notin> extra_id ` set (extras session_state) \<and>
   handleIncrementExtra 7 session_state = session_state \<and>
   handleDecrementExtra 7 session_state = session_state"
proof -
  have "7 \<notin> extra_id ` set (extras session_state)"
    by (simp add: session_extras)
  with unknown_id_unchanged[of 7 session_state] show ?thesis by simp
qed

subsection \<open>Incrementing an extra (C5)\<close>

text \<open>
  Claim C5, as the code has it. \<^verbatim>\<open>handleIncrementExtra\<close> keeps the length and the order of the extras: at
  every position, an extra with the identifier becomes the same extra with its quantity
  plus one, the sum being the JavaScript \<^verbatim>\<open>+\<close>, and any other extra stays as it is. The
  rest of the state is unchanged. For a whole quantity from \<open>0\<close> and below \<open>2\<^sup>5\<^sup>3\<close> the
  JavaScript sum is the whole number one higher.
\<close>

theorem handleIncrementExtra_spec:
  "length (extras (handleIncrementExtra ident s)) = length (extras s) \<and>
   (\<forall>i < length (extras s).
      extras (handleIncrementExtra ident s) ! i =
        (if extra_id (extras s ! i) = ident
         then (extras s ! i)\<lparr>extra_quantity := js_add (extra_quantity (extras s ! i)) (Fin 1)\<rparr>
         else extras s ! i)) \<and>
   food (handleIncrementExtra ident s) = food s \<and>
   isFavorite (handleIncrementExtra ident s) = isFavorite s \<and>
   foodQuantity (handleIncrementExtra ident s) = foodQuantity s \<and>
   (\<forall>n. 0 \<le> n \<and> n < 2 ^ 53 \<longrightarrow> js_add (Fin (of_int n)) (Fin 1) = Fin (of_int (n + 1)))"
proof -
  have "\<forall>n. 0 \<le> n \<and> n < 2 ^ 53 \<longrightarrow> js_add (Fin (of_int n)) (Fin 1) = Fin (of_int (n + 1))"
    using count_succ by blast
  then show ?thesis
    by (simp add: handleIncrementExtra_def del: js_add.simps)
qed

theorem handleIncrementExtra_spec_witness:
  "length (extras (handleIncrementExtra 1 session_state)) = 2 \<and>
   extras (handleIncrementExtra 1 session_state) ! 0 =
     \<lparr>extra_id = 1, extra_name = ''Bacon'', extra_value = Fin (3 / 2), extra_quantity = Fin 3\<rparr> \<and>
   extras (handleIncrementExtra 1 session_state) ! 1 = extras session_state ! 1"
proof -
  note t = handleIncrementExtra_spec[of 1 session_state]
  have l: "length (extras session_state) = 2"
    by (simp add: session_extras)
  from t have "0 \<le> (2::int) \<and> (2::int) < 2 ^ 53 \<longrightarrow>
      js_add (Fin (of_int 2)) (Fin 1) = Fin (of_int (2 + 1))"
    by blast
  then have q: "js_add (Fin 2) (Fin 1) = Fin 3"
    by (simp del: js_add.simps)
  from t l have "extras (handleIncrementExtra 1 session_state) ! 0 =
      (if extra_id (extras session_state ! 0) = 1
       then (extras session_state ! 0)\<lparr>extra_quantity :=
              js_add (extra_quantity (extras session_state ! 0)) (Fin 1)\<rparr>
       else extras session_state ! 0)"
    by simp
  then have a: "extras (handleIncrementExtra 1 session_state) ! 0 =
      \<lparr>extra_id = 1, extra_name = ''Bacon'', extra_value = Fin (3 / 2), extra_quantity = Fin 3\<rparr>"
    by (simp add: session_extras q del: js_add.simps)
  from t l have "extras (handleIncrementExtra 1 session_state) ! 1 =
      (if extra_id (extras session_state ! 1) = 1
       then (extras session_state ! 1)\<lparr>extra_quantity :=
              js_add (extra_quantity (extras session_state ! 1)) (Fin 1)\<rparr>
       else extras session_state ! 1)"
    by simp
  then have b: "extras (handleIncrementExtra 1 session_state) ! 1 = extras session_state ! 1"
    by (simp add: session_extras del: js_add.simps)
  from t l a b show ?thesis by simp
qed

text \<open>
  Claim C5 as stated fails at the top of the whole numbers that a double counts: after
  \<open>2\<^sup>5\<^sup>3\<close> taps on the plus of the first extra its quantity is \<open>2\<^sup>5\<^sup>3\<close>, and one more
  \<^verbatim>\<open>handleIncrementExtra\<close> leaves the state as it is, since \<open>2\<^sup>5\<^sup>3 + 1\<close> rounds to \<open>2\<^sup>5\<^sup>3\<close>.
\<close>

theorem handleIncrementExtra_top_counterexample:
  "reachable sample_formatValue top_state \<and>
   extra_id (extras top_state ! 0) = 1 \<and>
   extra_quantity (extras top_state ! 0) = Fin (2 ^ 53) \<and>
   handleIncrementExtra 1 top_state = top_state \<and>
   extra_quantity (extras (handleIncrementExtra 1 top_state) ! 0) \<noteq> Fin (2 ^ 53 + 1)"
proof -
  have q: "extra_quantity (extras top_state ! 0) = Fin (2 ^ 53)"
    by (simp add: top_state_def taps_state_def)
  have "js_add (Fin (2 ^ 53)) (Fin 1) = Fin (2 ^ 53)"
    using round64_pow53_succ by simp
  then have n: "handleIncrementExtra 1 top_state = top_state"
    by (simp add: handleIncrementExtra_def top_state_def taps_state_def del: js_add.simps)
  have "(2::rat) ^ 53 \<noteq> 2 ^ 53 + 1" by simp
  with q n top_reachable show ?thesis
    by (simp add: top_state_def taps_state_def)
qed

subsection \<open>The order payload (C6)\<close>

text \<open>
  Claim C6, as the code has it. The body of the order request is the \<^verbatim>\<open>food\<close> object
  of the state without \<^verbatim>\<open>formattedPrice\<close>: identifier, name, description, price, image
  and the item's own \<^verbatim>\<open>extras\<close> field are those of the state's object. The request
  depends on the \<^verbatim>\<open>food\<close> object only, so neither the \<^verbatim>\<open>extras\<close> state with the chosen
  quantities nor the item quantity reaches it.
\<close>

theorem order_payload:
  "(\<exists>p. snd (handleFinishOrder posted s) = PostOrder p # (if posted then [GoBack] else []) \<and>
        formattedPrice p = None \<and>
        food_id p = food_id (food s) \<and>
        food_name p = food_name (food s) \<and>
        food_description p = food_description (food s) \<and>
        food_price p = food_price (food s) \<and>
        food_image_url p = food_image_url (food s) \<and>
        food_extras p = food_extras (food s)) \<and>
   (\<forall>s'. food s' = food s \<longrightarrow>
        snd (handleFinishOrder posted s') = snd (handleFinishOrder posted s))"
  by (simp add: handleFinishOrder_def Let_def)

theorem order_payload_witness:
  "food session_state = food loaded_state \<and>
   extras session_state \<noteq> extras loaded_state \<and>
   foodQuantity session_state \<noteq> foodQuantity loaded_state \<and>
   snd (handleFinishOrder True session_state) = snd (handleFinishOrder True loaded_state) \<and>
   snd (handleFinishOrder True loaded_state) = [PostOrder server_food, GoBack]"
proof -
  have f: "food session_state = food loaded_state"
    by code_simp
  have e: "extras session_state \<noteq> extras loaded_state"
    by (simp add: session_extras loaded_state_value server_extras_def)
  have q: "foodQuantity session_state \<noteq> foodQuantity loaded_state"
    by code_simp
  have p: "snd (handleFinishOrder True loaded_state) = [PostOrder server_food, GoBack]"
    by (simp add: loaded_state_value handleFinishOrder_def Let_def server_food_def)
  from order_payload[of True loaded_state] f
  have "snd (handleFinishOrder True session_state) = snd (handleFinishOrder True loaded_state)"
    by blast
  with f e q p show ?thesis by simp
qed

text \<open>
  Claim C6 as stated fails: after loading an item that has extras, the order request
  carries the whole item as the server sent it, its \<^verbatim>\<open>extras\<close> list included.
\<close>

theorem order_payload_counterexample:
  "snd (handleFinishOrder True loaded_state) = [PostOrder server_food, GoBack] \<and>
   food_extras server_food = Some server_extras \<and>
   length server_extras = 2"
  by (simp add: loaded_state_value handleFinishOrder_def Let_def server_food_def
      server_extras_def)

subsection \<open>The item object is changed in place (C7)\<close>

text \<open>
  Claim C7 fails on the code. After loading, the \<^verbatim>\<open>food\<close> object has its formatted
  price and its extras. \<^verbatim>\<open>toggleFavorite\<close> removes both fields from the state's object
  and \<^verbatim>\<open>handleFinishOrder\<close> removes the formatted price.
\<close>

theorem toggleFavorite_deletes_item_fields:
  "formattedPrice (food loaded_state) = Some (sample_formatValue (food_price server_food)) \<and>
   food_extras (food loaded_state) = Some server_extras \<and>
   formattedPrice (food (fst (toggleFavorite loaded_state))) = None \<and>
   food_extras (food (fst (toggleFavorite loaded_state))) = None \<and>
   formattedPrice (food (fst (handleFinishOrder True loaded_state))) = None \<and>
   food (fst (toggleFavorite loaded_state)) \<noteq> food loaded_state \<and>
   food (fst (handleFinishOrder True loaded_state)) \<noteq> food loaded_state"
  by (simp add: loaded_state_value toggleFavorite_def handleFinishOrder_def Let_def
      server_food_def)

subsection \<open>Toggling the favorite flag twice (C8)\<close>

text \<open>
  Claim C8. \<^verbatim>\<open>toggleFavorite\<close> negates the local flag, so two toggles restore it: from
  not favorite the first gives favorite and the second not favorite again.
\<close>

theorem toggleFavorite_twice:
  "isFavorite (fst (toggleFavorite s)) = (\<not> isFavorite s) \<and>
   isFavorite (fst (toggleFavorite (fst (toggleFavorite s)))) = isFavorite s"
  by (simp add: toggleFavorite_def Let_def)

theorem toggleFavorite_twice_witness:
  "\<not> isFavorite initial_state \<and>
   isFavorite (fst (toggleFavorite initial_state)) \<and>
   \<not> isFavorite (fst (toggleFavorite (fst (toggleFavorite initial_state))))"
proof -
  have "\<not> isFavorite initial_state"
    by (simp add: initial_state_def)
  with toggleFavorite_twice[of initial_state] show ?thesis by simp
qed

subsection \<open>The favorite flag after loading (C9)\<close>

lemma findIndex_from_found:
  "0 \<le> k \<Longrightarrow> (findIndex_from P xs k \<noteq> - 1) = (\<exists>x \<in> set xs. P x)"
  by (induction xs arbitrary: k) auto

lemma findIndex_found: "(findIndex P xs \<noteq> - 1) = (\<exists>x \<in> set xs. P x)"
  by (simp add: findIndex_def findIndex_from_found)

lemma loadFood_flag:
  assumes "food_extras data = Some xs"
  shows "isFavorite (loadFood formatValue routeParams_id (Some data) (Some favorites) s) \<longleftrightarrow>
      isFavorite s \<or> (\<exists>fav \<in> set favorites. food_id fav = Some routeParams_id)"
proof -
  have "isFavorite (loadFood formatValue routeParams_id (Some data) (Some favorites) s) \<longleftrightarrow>
      isFavorite s \<or> findIndex (\<lambda>favId. food_id favId = Some routeParams_id) favorites \<noteq> - 1"
    using assms by (simp add: loadFood_def loadFood_item_def loadFood_favorites_def Let_def)
  then show ?thesis by (simp only: findIndex_found)
qed

text \<open>
  Claim C9, as the code has it. An item with its extras and the favorites list are
  loaded. If a favorite has the identifier the item was requested by, the flag is on
  afterwards. When the load runs in a state whose flag is off, as the first load after
  mounting does unless the icon was tapped before, the flag is on afterwards if and only if
  a favorite has that identifier; for an item that carries this identifier, if and only
  if the item's identifier is among those of the favorites.
\<close>

theorem loadFood_isFavorite:
  assumes "food_extras data = Some xs"
  shows
    "((\<exists>fav \<in> set favorites. food_id fav = Some routeParams_id) \<longrightarrow>
        isFavorite (loadFood formatValue routeParams_id (Some data) (Some favorites) s)) \<and>
     (\<not> isFavorite s \<longrightarrow>
        (isFavorite (loadFood formatValue routeParams_id (Some data) (Some favorites) s) \<longleftrightarrow>
           (\<exists>fav \<in> set favorites. food_id fav = Some routeParams_id)) \<and>
        (food_id data = Some routeParams_id \<longrightarrow>
           (isFavorite (loadFood formatValue routeParams_id (Some data) (Some favorites) s) \<longleftrightarrow>
              food_id data \<in> food_id ` set favorites)))"
proof -
  have "(Some routeParams_id \<in> food_id ` set favorites) =
      (\<exists>fav \<in> set favorites. food_id fav = Some routeParams_id)"
    by (simp add: image_iff eq_commute[of "Some routeParams_id"])
  with loadFood_flag[OF assms, of formatValue routeParams_id favorites s] show ?thesis
    by simp
qed

theorem loadFood_isFavorite_witness:
  "food_extras server_food = Some server_extras \<and>
   \<not> isFavorite initial_state \<and>
   food_id server_food = Some 5 \<and>
   isFavorite (loadFood sample_formatValue 5 (Some server_food) (Some favorite_list)
     initial_state) \<and>
   \<not> isFavorite (loadFood sample_formatValue 5 (Some server_food) (Some []) initial_state)"
proof -
  have a: "food_extras server_food = Some server_extras" "food_id server_food = Some 5"
    by (simp_all add: server_food_def)
  have b: "\<not> isFavorite initial_state"
    by (simp add: initial_state_def)
  from loadFood_isFavorite[OF a(1), of favorite_list 5 sample_formatValue initial_state]
  have c: "isFavorite (loadFood sample_formatValue 5 (Some server_food) (Some favorite_list)
     initial_state)"
    by (simp add: a favorite_list_def)
  from loadFood_isFavorite[OF a(1), of "[]" 5 sample_formatValue initial_state] b
  have d: "\<not> isFavorite (loadFood sample_formatValue 5 (Some server_food) (Some []) initial_state)"
    by simp
  from a b c d show ?thesis by simp
qed

text \<open>
  Claim C9 as stated fails when the flag is on before the load, since the load never
  turns it off. After item \<open>5\<close>, a favorite, the route parameter changes to item \<open>6\<close>,
  which is no favorite: the flag stays on. And a tap on the icon before the first load
  resolves leaves the flag on though the list is empty.
\<close>

theorem loadFood_isFavorite_counterexample:
  "reachable sample_formatValue reload_state \<and>
   food_id (food reload_state) = Some 6 \<and>
   Some 6 \<notin> food_id ` set favorite_list \<and>
   isFavorite reload_state \<and>
   reachable sample_formatValue early_tap_state \<and>
   food_id (food early_tap_state) = Some 5 \<and>
   isFavorite early_tap_state"
proof -
  have e: "food_extras (server_food\<lparr>food_id := Some 6\<rparr>) = Some server_extras"
    by (simp add: server_food_def)
  have r1: "reachable sample_formatValue reload_state"
    unfolding reload_state_def
    by (intro reachable_loadFood[OF e] reachable_loadFood[OF server_food_extras] reachable_init)
  have "reachable sample_formatValue (handle sample_formatValue ToggleFavorite initial_state)"
    by (intro reachable_step reachable_init)
  then have r2: "reachable sample_formatValue early_tap_state"
    unfolding early_tap_state_def
    by (intro reachable_loadFood[OF server_food_extras]) simp
  have i: "food_id server_food = Some 5"
    by (simp add: server_food_def)
  have "isFavorite (loadFood sample_formatValue 5 (Some server_food) (Some favorite_list)
      initial_state)"
    by (simp add: loadFood_flag[OF server_food_extras] favorite_list_def i)
  then have f1: "isFavorite reload_state"
    unfolding reload_state_def by (simp add: loadFood_flag[OF e])
  have f2: "isFavorite early_tap_state"
    unfolding early_tap_state_def
    by (simp add: loadFood_flag[OF server_food_extras] toggleFavorite_def initial_state_def
        Let_def)
  have i1: "food_id (food reload_state) = Some 6"
    by (simp add: reload_state_def loadFood_def loadFood_item_def loadFood_favorites_def
        Let_def server_food_def split: option.splits)
  have i2: "food_id (food early_tap_state) = Some 5"
    by (simp add: early_tap_state_def loadFood_def loadFood_item_def loadFood_favorites_def
        Let_def server_food_def split: option.splits)
  have n: "Some 6 \<notin> food_id ` set favorite_list"
    by (simp add: favorite_list_def server_food_def)
  from r1 r2 f1 f2 i1 i2 n show ?thesis by simp
qed

subsection \<open>The total before the item is loaded (C10)\<close>

lemma js_add_NaN: "js_add x NaN = NaN"
  by (cases x) simp_all

text \<open>
  Claim C10. There is no guard for an item that is not loaded: in any state whose
  \<^verbatim>\<open>food\<close> object has no price the total is NaN, and NaN is what the formatter is
  given. The initial state is such a state; its total is not \<open>0\<close>.
\<close>

theorem total_amount_unloaded:
  "(food_price (food s) = None \<longrightarrow>
      total_amount s = NaN \<and> cartTotal formatValue s = formatValue (Some NaN)) \<and>
   food (initial_state) = empty_food \<and>
   total_amount initial_state = NaN \<and>
   cartTotal formatValue initial_state = formatValue (Some NaN) \<and>
   total_amount initial_state \<noteq> Fin 0"
proof -
  have a: "food_price (food s) = None \<longrightarrow> total_amount s = NaN" for s
    by (simp add: total_amount_def js_add_NaN)
  have b: "food_price (food initial_state) = None"
    by (simp add: initial_state_def empty_food_def)
  from a[of s] a[of initial_state] b show ?thesis
    by (simp add: cartTotal_def initial_state_def)
qed

theorem total_amount_unloaded_witness:
  "food_price (food initial_state) = None \<and>
   total_amount initial_state = NaN \<and>
   cartTotal sample_formatValue initial_state = sample_formatValue (Some NaN)"
proof -
  have "food_price (food initial_state) = None"
    by (simp add: initial_state_def empty_food_def)
  with total_amount_unloaded[of initial_state sample_formatValue] show ?thesis by simp
qed

end
